theory Spec2Isabelle
  imports Complex_Main
begin

section \<open>Values: float64 cells\<close>

text \<open>
  The arrays of \<^verbatim>\<open>utils.py\<close> hold float64 values. A cell is modelled as a real
  number or one of the three IEEE special values. The special values follow IEEE 754 as
  numpy applies it: not-a-number is absorbing, \<open>inf - inf\<close>, \<open>0 * inf\<close>, \<open>0 / 0\<close> and
  \<open>inf / inf\<close> are not-a-number, a nonzero finite value divided by zero is an infinity
  (numpy warns and goes on). An operation on finite values overflows as round-to-nearest
  has it: an exact result of magnitude \<open>2^1024 - 2^970\<close> or more becomes an infinity.
  Below that the exact result is kept: rounding to 53 bits, underflow and the sign of
  zero are not modelled.
\<close>

datatype fl = NaN | NInf | PInf | Fin real

datatype error = ValueError | IndexError | TypeError

fun isnan :: "fl \<Rightarrow> bool" where
  "isnan NaN = True"
| "isnan _ = False"

fun isfinite :: "fl \<Rightarrow> bool" where
  "isfinite (Fin _) = True"
| "isfinite _ = False"

fun fneg :: "fl \<Rightarrow> fl" where
  "fneg NaN = NaN"
| "fneg NInf = PInf"
| "fneg PInf = NInf"
| "fneg (Fin a) = Fin (- a)"

definition overflow_threshold :: real where
  "overflow_threshold = 2 ^ 1024 - 2 ^ 970"

definition ovf :: "real \<Rightarrow> fl" where
  "ovf x = (if overflow_threshold \<le> x then PInf
            else if x \<le> - overflow_threshold then NInf else Fin x)"

fun fadd :: "fl \<Rightarrow> fl \<Rightarrow> fl" where
  "fadd NaN _ = NaN"
| "fadd _ NaN = NaN"
| "fadd PInf NInf = NaN"
| "fadd NInf PInf = NaN"
| "fadd PInf _ = PInf"
| "fadd _ PInf = PInf"
| "fadd NInf _ = NInf"
| "fadd _ NInf = NInf"
| "fadd (Fin a) (Fin b) = ovf (a + b)"

definition fsub :: "fl \<Rightarrow> fl \<Rightarrow> fl" where
  "fsub x y = fadd x (fneg y)"

text \<open>The sign of a value that is not not-a-number: -1, 0 or 1.\<close>

fun fsgn :: "fl \<Rightarrow> int" where
  "fsgn NaN = 0"
| "fsgn NInf = - 1"
| "fsgn PInf = 1"
| "fsgn (Fin a) = (if a < 0 then - 1 else if a = 0 then 0 else 1)"

definition inf_of_sign :: "int \<Rightarrow> fl" where
  "inf_of_sign s = (if s = 0 then NaN else if s < 0 then NInf else PInf)"

fun fmul :: "fl \<Rightarrow> fl \<Rightarrow> fl" where
  "fmul NaN _ = NaN"
| "fmul _ NaN = NaN"
| "fmul (Fin a) (Fin b) = ovf (a * b)"
| "fmul x y = inf_of_sign (fsgn x * fsgn y)"

fun fdiv :: "fl \<Rightarrow> fl \<Rightarrow> fl" where
  "fdiv NaN _ = NaN"
| "fdiv _ NaN = NaN"
| "fdiv (Fin a) (Fin b) = (if b = 0 then inf_of_sign (fsgn (Fin a)) else ovf (a / b))"
| "fdiv (Fin a) _ = Fin 0"
| "fdiv x (Fin b) = (if b < 0 then fneg x else x)"
| "fdiv _ _ = NaN"

fun fsqrt :: "fl \<Rightarrow> fl" where
  "fsqrt NaN = NaN"
| "fsqrt NInf = NaN"
| "fsqrt PInf = PInf"
| "fsqrt (Fin a) = (if a < 0 then NaN else Fin (sqrt a))"

text \<open>IEEE comparison: false as soon as one side is not-a-number.\<close>

fun flt :: "fl \<Rightarrow> fl \<Rightarrow> bool" where
  "flt NaN _ = False"
| "flt _ NaN = False"
| "flt (Fin a) (Fin b) = (a < b)"
| "flt NInf y = (y \<noteq> NInf)"
| "flt x PInf = (x \<noteq> PInf)"
| "flt _ _ = False"

text \<open>
  \<^verbatim>\<open>np.fmin\<close> and \<^verbatim>\<open>np.fmax\<close>: the smaller (larger) of two values, a
  not-a-number operand being ignored when the other operand is a number.
\<close>

definition fmin :: "fl \<Rightarrow> fl \<Rightarrow> fl" where
  "fmin x y = (if isnan x then y else if isnan y then x else if flt y x then y else x)"

definition fmax :: "fl \<Rightarrow> fl \<Rightarrow> fl" where
  "fmax x y = (if isnan x then y else if isnan y then x else if flt x y then y else x)"

text \<open>
  \<^verbatim>\<open>np.nanmin\<close> and \<^verbatim>\<open>np.nanmax\<close> of a one-dimensional array: the reduction
  by \<^verbatim>\<open>fmin\<close> (\<^verbatim>\<open>fmax\<close>). Not-a-number entries are ignored; a slice of
  not-a-number entries only gives not-a-number (numpy warns); a slice of no entries raises
  \<^verbatim>\<open>ValueError\<close> (a reduction with no identity).
\<close>

definition nanmin :: "fl list \<Rightarrow> error + fl" where
  "nanmin xs = (case xs of [] \<Rightarrow> Inl ValueError | y # ys \<Rightarrow> Inr (foldl fmin y ys))"

definition nanmax :: "fl list \<Rightarrow> error + fl" where
  "nanmax xs = (case xs of [] \<Rightarrow> Inl ValueError | y # ys \<Rightarrow> Inr (foldl fmax y ys))"

text \<open>The constant \<^verbatim>\<open>1e-6\<close>.\<close>

definition eps :: fl where
  "eps = Fin (1 / 1000000)"

section \<open>Errors and loops\<close>

text \<open>
  A Python exception is the \<open>Inl\<close> side of a sum; \<open>ebind\<close> sequences two steps and
  stops at the first exception. \<open>for_each\<close> is a \<^verbatim>\<open>for\<close> loop over a list of
  indices whose body updates the loop state or raises.
\<close>

definition ebind :: "'e + 'a \<Rightarrow> ('a \<Rightarrow> 'e + 'b) \<Rightarrow> 'e + 'b" where
  "ebind m f = (case m of Inl e \<Rightarrow> Inl e | Inr x \<Rightarrow> f x)"

fun for_each :: "nat list \<Rightarrow> (nat \<Rightarrow> 's \<Rightarrow> 'e + 's) \<Rightarrow> 's \<Rightarrow> 'e + 's" where
  "for_each [] body s = Inr s"
| "for_each (i # js) body s = ebind (body i s) (for_each js body)"

section \<open>Two-dimensional arrays\<close>

text \<open>
  A 2-D array: its shape and its rows. The shape is kept beside the rows because an
  array of no rows still has a number of columns (\<^verbatim>\<open>data.shape\<close>). A float array
  is an \<open>ndarray\<close>.
\<close>

record 'a array2 =
  nrows :: nat
  ncols :: nat
  cells :: "'a list list"

type_synonym ndarray = "fl array2"

definition wf_array :: "('a, 'z) array2_scheme \<Rightarrow> bool" where
  "wf_array a = (length (cells a) = nrows a \<and> list_all (\<lambda>r. length r = ncols a) (cells a))"

definition cell :: "('a, 'z) array2_scheme \<Rightarrow> nat \<Rightarrow> nat \<Rightarrow> 'a" where
  "cell a r i = cells a ! r ! i"

text \<open>\<^verbatim>\<open>a[:, i]\<close> read, and \<^verbatim>\<open>a[:, i] = col\<close> for a \<open>col\<close> of the column's length.\<close>

definition getcol :: "ndarray \<Rightarrow> nat \<Rightarrow> error + fl list" where
  "getcol a i = (if i < ncols a then Inr (map (\<lambda>r. r ! i) (cells a)) else Inl IndexError)"

definition setcol :: "ndarray \<Rightarrow> nat \<Rightarrow> fl list \<Rightarrow> error + ndarray" where
  "setcol a i col =
     (if i < ncols a then Inr (a\<lparr>cells := map2 (\<lambda>r v. r[i := v]) (cells a) col\<rparr>)
      else Inl IndexError)"

text \<open>An elementwise operation with a number, and \<^verbatim>\<open>np.sum\<close> over all cells.\<close>

definition amap :: "('a \<Rightarrow> 'b) \<Rightarrow> 'a array2 \<Rightarrow> 'b array2" where
  "amap f a = \<lparr>nrows = nrows a, ncols = ncols a, cells = map (map f) (cells a)\<rparr>"

definition asum :: "ndarray \<Rightarrow> fl" where
  "asum a = foldl fadd (Fin 0) (concat (cells a))"

text \<open>
  An elementwise operation on two 2-D arrays, with numpy's broadcasting: along each
  axis the two lengths are equal, or one of them is 1 and that array is repeated along
  the axis; any other pair of shapes raises \<^verbatim>\<open>ValueError\<close>.
\<close>

definition bdim :: "nat \<Rightarrow> nat \<Rightarrow> nat option" where
  "bdim m n = (if m = n then Some m else if m = 1 then Some n else if n = 1 then Some m else None)"

definition stretch :: "nat \<Rightarrow> 'a list \<Rightarrow> 'a list" where
  "stretch n xs = (if length xs = n then xs else replicate n (hd xs))"

definition broadcast2 :: "(fl \<Rightarrow> fl \<Rightarrow> fl) \<Rightarrow> ndarray \<Rightarrow> ndarray \<Rightarrow> error + ndarray" where
  "broadcast2 f a b =
     (case (bdim (nrows a) (nrows b), bdim (ncols a) (ncols b)) of
        (Some r, Some c) \<Rightarrow>
          Inr \<lparr>nrows = r, ncols = c,
               cells = map2 (\<lambda>ra rb. map2 f (stretch c ra) (stretch c rb))
                         (stretch r (cells a)) (stretch r (cells b))\<rparr>
      | _ \<Rightarrow> Inl ValueError)"

section \<open>Normalization parameters\<close>

text \<open>
  \<^verbatim>\<open>parameters['min_val']\<close> and \<^verbatim>\<open>parameters['max_val']\<close> are whatever the caller
  stored: a one-dimensional array (fit mode stores these) or a single number.
\<close>

datatype param = Scalar fl | Vec "fl list"

record params =
  min_val :: param
  max_val :: param

text \<open>\<^verbatim>\<open>p + 1e-6\<close>: elementwise on an array.\<close>

fun padd :: "param \<Rightarrow> fl \<Rightarrow> param" where
  "padd (Scalar c) e = Scalar (fadd c e)"
| "padd (Vec ws) e = Vec (map (\<lambda>w. fadd w e) ws)"

text \<open>
  \<^verbatim>\<open>p[i]\<close>: a number cannot be indexed, an array only below its length. Which
  exception a number raises depends on its Python type; the only caller catches all.
\<close>

fun pindex :: "param \<Rightarrow> nat \<Rightarrow> error + fl" where
  "pindex (Scalar c) i = Inl TypeError"
| "pindex (Vec ws) i = (if i < length ws then Inr (ws ! i) else Inl IndexError)"

text \<open>
  \<^verbatim>\<open>a[:, i] = a[:, i] op p\<close> for a whole parameter \<open>p\<close>. numpy broadcasts the column
  (shape \<open>(n,)\<close>) against \<open>p\<close>: a number applies to every entry; an array of shape
  \<open>(k,)\<close> is combined entry by entry when \<open>k = n\<close>, its single entry applies to every
  entry when \<open>k = 1\<close>, and every other \<open>k\<close> raises \<^verbatim>\<open>ValueError\<close> (in the
  operation, or for \<open>n = 1\<close> in the assignment of \<open>k\<close> values to one cell).
\<close>

fun bcast_col :: "(fl \<Rightarrow> fl \<Rightarrow> fl) \<Rightarrow> fl list \<Rightarrow> param \<Rightarrow> error + fl list" where
  "bcast_col f col (Scalar c) = Inr (map (\<lambda>v. f v c) col)"
| "bcast_col f col (Vec ws) =
     (if length ws = length col then Inr (map2 f col ws)
      else if length ws = 1 then Inr (map (\<lambda>v. f v (hd ws)) col)
      else Inl ValueError)"

section \<open>normalization\<close>

text \<open>
  The body of the fit-mode loop (\<^verbatim>\<open>parameters is None\<close>), statement by statement.
  The loop state is \<open>(norm_data, min_val, max_val)\<close>.
\<close>

definition fit_column ::
  "nat \<Rightarrow> ndarray \<times> fl list \<times> fl list \<Rightarrow> error + (ndarray \<times> fl list \<times> fl list)" where
  "fit_column i s =
     (case s of (norm_data, mins, maxs) \<Rightarrow>
        ebind (getcol norm_data i) (\<lambda>c0.
        ebind (nanmin c0) (\<lambda>m0.
        ebind (getcol norm_data i) (\<lambda>c1.
        ebind (nanmin c1) (\<lambda>m1.
        ebind (setcol norm_data i (map (\<lambda>v. fsub v m1) c1)) (\<lambda>nd1.
        ebind (getcol nd1 i) (\<lambda>c2.
        ebind (nanmax c2) (\<lambda>m2.
        ebind (getcol nd1 i) (\<lambda>c3.
        ebind (nanmax c3) (\<lambda>m3.
        ebind (setcol nd1 i (map (\<lambda>v. fdiv v (fadd m3 eps)) c3)) (\<lambda>nd2.
        Inr (nd2, mins[i := m0], maxs[i := m2]))))))))))))"

text \<open>The body of the apply-mode loop: both statements use the whole parameter.\<close>

definition apply_column :: "param \<Rightarrow> param \<Rightarrow> nat \<Rightarrow> ndarray \<Rightarrow> error + ndarray" where
  "apply_column mn mx i norm_data =
     ebind (getcol norm_data i) (\<lambda>c0.
     ebind (bcast_col fsub c0 mn) (\<lambda>c1.
     ebind (setcol norm_data i c1) (\<lambda>nd1.
     ebind (getcol nd1 i) (\<lambda>c2.
     ebind (bcast_col fdiv c2 (padd mx eps)) (\<lambda>c3.
     setcol nd1 i c3)))))"

definition normalization :: "ndarray \<Rightarrow> params option \<Rightarrow> error + (ndarray \<times> params)" where
  "normalization data parameters =
     (let dim = ncols data; norm_data = data in
      case parameters of
        None \<Rightarrow>
          ebind (for_each [0..<dim] fit_column
                   (norm_data, replicate dim (Fin 0), replicate dim (Fin 0)))
            (\<lambda>(nd, mins, maxs). Inr (nd, \<lparr>min_val = Vec mins, max_val = Vec maxs\<rparr>))
      | Some p \<Rightarrow>
          ebind (for_each [0..<dim] (apply_column (min_val p) (max_val p)) norm_data)
            (\<lambda>nd. Inr (nd, p)))"

section \<open>renormalization\<close>

text \<open>
  The \<^verbatim>\<open>try\<close> loop indexes the parameters by column. A statement that raises leaves
  the array as the statements before it made it, and the bare \<^verbatim>\<open>except\<close> starts the
  second loop, on whole parameters, from that array. \<open>raising_in rd\<close> attaches the
  array to an exception raised while it is \<open>rd\<close>.
\<close>

definition raising_in :: "ndarray \<Rightarrow> error + 'a \<Rightarrow> (error \<times> ndarray) + 'a" where
  "raising_in rd m = (case m of Inl e \<Rightarrow> Inl (e, rd) | Inr x \<Rightarrow> Inr x)"

definition try_column :: "param \<Rightarrow> param \<Rightarrow> nat \<Rightarrow> ndarray \<Rightarrow> (error \<times> ndarray) + ndarray" where
  "try_column mn mx i renorm_data =
     ebind (raising_in renorm_data (getcol renorm_data i)) (\<lambda>c0.
     ebind (raising_in renorm_data (pindex mx i)) (\<lambda>mx_i.
     ebind (raising_in renorm_data
              (setcol renorm_data i (map (\<lambda>v. fmul v (fadd mx_i eps)) c0))) (\<lambda>rd1.
     ebind (raising_in rd1 (getcol rd1 i)) (\<lambda>c1.
     ebind (raising_in rd1 (pindex mn i)) (\<lambda>mn_i.
     raising_in rd1 (setcol rd1 i (map (\<lambda>v. fadd v mn_i) c1)))))))"

definition except_column :: "param \<Rightarrow> param \<Rightarrow> nat \<Rightarrow> ndarray \<Rightarrow> error + ndarray" where
  "except_column mn mx i renorm_data =
     ebind (getcol renorm_data i) (\<lambda>c0.
     ebind (bcast_col fmul c0 (padd mx eps)) (\<lambda>c1.
     ebind (setcol renorm_data i c1) (\<lambda>rd1.
     ebind (getcol rd1 i) (\<lambda>c2.
     ebind (bcast_col fadd c2 mn) (\<lambda>c3.
     setcol rd1 i c3)))))"

definition renormalization :: "ndarray \<Rightarrow> params \<Rightarrow> error + ndarray" where
  "renormalization norm_data norm_parameters =
     (let mn = min_val norm_parameters; mx = max_val norm_parameters;
          dim = ncols norm_data; renorm_data = norm_data in
      case for_each [0..<dim] (try_column mn mx) renorm_data of
        Inr rd \<Rightarrow> Inr rd
      | Inl (e, rd) \<Rightarrow> for_each [0..<dim] (except_column mn mx) rd)"

section \<open>rounding\<close>

text \<open>
  \<^verbatim>\<open>np.round\<close> rounds to the nearest integer, a tie to the even one; not-a-number
  and the infinities are left as they are.
\<close>

definition rint :: "real \<Rightarrow> int" where
  "rint x =
     (let f = \<lfloor>x\<rfloor>; d = x - of_int f in
      if d < 1 / 2 then f else if 1 / 2 < d then f + 1 else if even f then f else f + 1)"

fun fround :: "fl \<Rightarrow> fl" where
  "fround (Fin x) = Fin (of_int (rint x))"
| "fround v = v"

text \<open>
  The loop body. \<open>temp\<close> is the column of \<open>data_x\<close> without its not-a-number entries,
  \<^verbatim>\<open>len(np.unique(temp))\<close> the number of distinct values in it.
\<close>

definition round_column :: "ndarray \<Rightarrow> nat \<Rightarrow> ndarray \<Rightarrow> error + ndarray" where
  "round_column data_x i rounded_data =
     ebind (getcol data_x i) (\<lambda>cx.
       let temp = filter (\<lambda>v. \<not> isnan v) cx in
       if length (remdups temp) < 20
       then ebind (getcol rounded_data i) (\<lambda>c. setcol rounded_data i (map fround c))
       else Inr rounded_data)"

definition rounding :: "ndarray \<Rightarrow> ndarray \<Rightarrow> error + ndarray" where
  "rounding imputed_data data_x =
     (let dim = ncols data_x; rounded_data = imputed_data in
      for_each [0..<dim] (round_column data_x) rounded_data)"

section \<open>rmse_loss\<close>

definition rmse_loss :: "ndarray \<Rightarrow> ndarray \<Rightarrow> ndarray \<Rightarrow> error + fl" where
  "rmse_loss ori_data imputed_data data_m =
     ebind (normalization ori_data None) (\<lambda>(ori_norm, norm_parameters).
     ebind (normalization imputed_data (Some norm_parameters)) (\<lambda>(imputed_norm, _).
     ebind (broadcast2 fmul (amap (fsub (Fin 1)) data_m) ori_norm) (\<lambda>a.
     ebind (broadcast2 fmul (amap (fsub (Fin 1)) data_m) imputed_norm) (\<lambda>b.
     ebind (broadcast2 fsub a b) (\<lambda>diff.
       let nominator = asum (amap (\<lambda>v. fmul v v) diff);
           denominator = asum (amap (fsub (Fin 1)) data_m)
       in Inr (fsqrt (fdiv nominator denominator)))))))"

section \<open>The random samplers\<close>

text \<open>
  The samplers draw from numpy's process-wide generator. Its algorithm is not part of
  this module, so it is a parameter: \<open>seed_gen s\<close> is the generator state that
  \<^verbatim>\<open>np.random.seed(s)\<close> installs, whatever the state was before;
  \<open>uniform_gen\<close> and \<open>permutation_gen\<close> are \<^verbatim>\<open>np.random.uniform(low, high,
  size=[rows, cols])\<close> and \<^verbatim>\<open>np.random.permutation(n)\<close>: from a state they give
  their result and the next state, or raise. Each sampler takes the current state of the
  process-wide generator and returns the state it leaves behind.
\<close>

record 'g generator =
  seed_gen :: "int \<Rightarrow> 'g"
  uniform_gen :: "'g \<Rightarrow> fl \<Rightarrow> fl \<Rightarrow> int \<Rightarrow> int \<Rightarrow> error + (ndarray \<times> 'g)"
  permutation_gen :: "'g \<Rightarrow> int \<Rightarrow> error + (int list \<times> 'g)"

definition binary_sampler ::
  "'g generator \<Rightarrow> fl \<Rightarrow> int \<Rightarrow> int \<Rightarrow> 'g \<Rightarrow> error + (int array2 \<times> 'g)" where
  "binary_sampler G p rows cols g =
     (let g1 = seed_gen G 7 in
      ebind (uniform_gen G g1 (Fin 0) (Fin 1) rows cols) (\<lambda>(unif_random_matrix, g2).
        Inr (amap (\<lambda>u. 1 * (if flt u p then 1 else 0)) unif_random_matrix, g2)))"

definition uniform_sampler ::
  "'g generator \<Rightarrow> fl \<Rightarrow> fl \<Rightarrow> int \<Rightarrow> int \<Rightarrow> 'g \<Rightarrow> error + (ndarray \<times> 'g)" where
  "uniform_sampler G low high rows cols g =
     (let g1 = seed_gen G 7 in uniform_gen G g1 low high rows cols)"

text \<open>
  \<^verbatim>\<open>xs[:k]\<close>: the first \<open>k\<close> entries, all of them when there are fewer; for a
  negative \<open>k\<close>, all but the last \<open>-k\<close>.
\<close>

definition slice_to :: "'a list \<Rightarrow> int \<Rightarrow> 'a list" where
  "slice_to xs k = (if 0 \<le> k then take (nat k) xs else take (length xs - nat (- k)) xs)"

definition sample_batch_index ::
  "'g generator \<Rightarrow> int \<Rightarrow> int \<Rightarrow> 'g \<Rightarrow> error + (int list \<times> 'g)" where
  "sample_batch_index G total' batch_size g =
     (let g1 = seed_gen G 7 in
      ebind (permutation_gen G g1 total') (\<lambda>(total_idx, g2).
        Inr (slice_to total_idx batch_size, g2)))"

section \<open>get_data\<close>

text \<open>
  \<^verbatim>\<open>get_data\<close> stores the string \<^verbatim>\<open>".|."\<close> in the copy, so \<open>X\<close> is an array of
  strings: of Python objects (\<open>itemsize = None\<close>) or of fixed-width unicode strings
  (\<open>itemsize = Some k\<close>), where numpy cuts a stored string to the first \<open>k\<close> characters.
  The claims about \<^verbatim>\<open>get_data\<close> are about which array object is written, so arrays
  live in a store: \<open>arrays w a\<close> is the array at address \<open>a\<close>, the addresses below
  \<open>next_free w\<close> are the live ones, \<^verbatim>\<open>X.copy()\<close> allocates the next address, and
  \<open>rng w\<close> is the state of the process-wide generator.
\<close>

record strarray = "string array2" +
  itemsize :: "nat option"

record 'g world =
  arrays :: "nat \<Rightarrow> strarray"
  next_free :: nat
  rng :: 'g

definition sentinel :: string where
  "sentinel = ''.|.''"

definition store_str :: "strarray \<Rightarrow> string \<Rightarrow> string" where
  "store_str a v = (case itemsize a of None \<Rightarrow> v | Some k \<Rightarrow> take k v)"

definition array_copy :: "'g world \<Rightarrow> nat \<Rightarrow> nat \<times> 'g world" where
  "array_copy w x =
     (next_free w, w\<lparr>arrays := (arrays w)(next_free w := arrays w x),
                     next_free := Suc (next_free w)\<rparr>)"

text \<open>
  \<^verbatim>\<open>a[data_m == 0] = v\<close>: the boolean mask must have the shape of \<open>a\<close>
  (\<^verbatim>\<open>IndexError\<close> otherwise); the cells where it holds get \<open>v\<close> as \<open>a\<close> stores it.
\<close>

definition mask_assign :: "strarray \<Rightarrow> int array2 \<Rightarrow> string \<Rightarrow> error + strarray" where
  "mask_assign a data_m v =
     (if nrows data_m = nrows a \<and> ncols data_m = ncols a
      then Inr (a\<lparr>cells := map2 (\<lambda>row mrow. map2 (\<lambda>x m. if m = 0 then store_str a v else x) row mrow)
                              (cells a) (cells data_m)\<rparr>)
      else Inl IndexError)"

definition get_data ::
  "'g generator \<Rightarrow> nat \<Rightarrow> fl \<Rightarrow> 'g world \<Rightarrow> error + ((nat \<times> nat) \<times> 'g world)" where
  "get_data G X miss_rate w =
     (let no = nrows (arrays w X); dim = ncols (arrays w X) in
      ebind (binary_sampler G (fsub (Fin 1) miss_rate) (int no) (int dim) (rng w)) (\<lambda>(data_m, g2).
        let (miss_data_x, w1) = array_copy (w\<lparr>rng := g2\<rparr>) X in
        ebind (mask_assign (arrays w1 miss_data_x) data_m sentinel) (\<lambda>updated.
          Inr ((X, miss_data_x), w1\<lparr>arrays := (arrays w1)(miss_data_x := updated)\<rparr>))))"

text \<open>
  A small generator to run the samplers on in closed examples: its state is a counter,
  its uniform values cycle through 0, 1/4, 1/2 and 3/4 of the interval, and its
  permutation reverses the range.
\<close>

definition demo_gen :: "nat generator" where
  "demo_gen =
     \<lparr>seed_gen = (\<lambda>s. nat s),
      uniform_gen = (\<lambda>g low high rows cols.
        if rows < 0 \<or> cols < 0 then Inl ValueError
        else Inr (\<lparr>nrows = nat rows, ncols = nat cols,
                   cells = map (\<lambda>r. map (\<lambda>c.
                       fadd low (fmul (fsub high low)
                         (Fin (real ((g + r * nat cols + c) mod 4) / 4))))
                     [0..<nat cols]) [0..<nat rows]\<rparr>,
                  g + nat rows * nat cols)),
      permutation_gen = (\<lambda>g n. Inr (rev (map int [0..<nat n]), Suc g))\<rparr>"

section \<open>Notions used in the statements\<close>

text \<open>Column \<open>i\<close> of an array as a list, top to bottom, and the array with it replaced.\<close>

definition column :: "('a, 'z) array2_scheme \<Rightarrow> nat \<Rightarrow> 'a list" where
  "column a i = map (\<lambda>r. r ! i) (cells a)"

definition putcol :: "ndarray \<Rightarrow> nat \<Rightarrow> fl list \<Rightarrow> ndarray" where
  "putcol a i col = a\<lparr>cells := map2 (\<lambda>r v. r[i := v]) (cells a) col\<rparr>"

text \<open>The two reductions on a column that has an entry.\<close>

definition colmin :: "fl list \<Rightarrow> fl" where
  "colmin xs = foldl fmin (hd xs) (tl xs)"

definition colmax :: "fl list \<Rightarrow> fl" where
  "colmax xs = foldl fmax (hd xs) (tl xs)"

definition shift_max :: "fl list \<Rightarrow> fl" where
  "shift_max c = colmax (map (\<lambda>v. fsub v (colmin c)) c)"

definition fit_result :: "fl list \<Rightarrow> fl list" where
  "fit_result c = map (\<lambda>v. fdiv (fsub v (colmin c)) (fadd (shift_max c) eps)) c"

text \<open>
  The column of \<open>data_x\<close> counts as categorical: its entries that are not not-a-number
  take fewer than 20 distinct values.
\<close>

definition categorical :: "ndarray \<Rightarrow> nat \<Rightarrow> bool" where
  "categorical data_x i = (card {v \<in> set (column data_x i). \<not> isnan v} < 20)"

text \<open>The order of the values that are numbers: \<open>fle x y\<close> is \<open>x \<le> y\<close>.\<close>

definition fle :: "fl \<Rightarrow> fl \<Rightarrow> bool" where
  "fle x y = (\<not> isnan x \<and> \<not> isnan y \<and> \<not> flt y x)"

section \<open>Overflow\<close>

lemma overflow_threshold_big: "2 ^ 64 < overflow_threshold"
proof -
  have "(2::real) ^ 970 * 2 \<le> 2 ^ 970 * 2 ^ 54" by (intro mult_left_mono) simp_all
  then have "(2::real) ^ 970 * 2 \<le> 2 ^ 1024" by (simp add: power_add [symmetric])
  moreover have "(2::real) ^ 64 < 2 ^ 970" by (intro power_strict_increasing) simp_all
  ultimately show ?thesis by (simp add: overflow_threshold_def)
qed

lemma ovf_small [simp]: "\<bar>x\<bar> \<le> 2 ^ 64 \<Longrightarrow> ovf x = Fin x"
  using overflow_threshold_big by (auto simp: ovf_def)

lemma ovf_not_nan [simp]: "ovf x \<noteq> NaN"
  by (simp add: ovf_def)

lemma overflow_threshold_pos: "0 < overflow_threshold"
  using overflow_threshold_big by (simp add: less_trans [OF zero_less_power])

lemma ovf_finite: "isfinite (ovf x) \<Longrightarrow> ovf x = Fin x"
  by (simp add: ovf_def split: if_splits)

lemma ovf_nonneg: "0 \<le> x \<Longrightarrow> ovf x = Fin x \<or> ovf x = PInf"
  using overflow_threshold_pos by (auto simp: ovf_def)

lemma fmax_ovf: "fmax (ovf a) (ovf b) = ovf (max a b)"
  using overflow_threshold_pos by (auto simp: fmax_def ovf_def max_def)

lemma fmax_Fin: "fmax (Fin a) (Fin b) = Fin (max a b)"
  by (auto simp: fmax_def max_def)

section \<open>Arrays and columns\<close>

lemma getcol_column: "i < ncols a \<Longrightarrow> getcol a i = Inr (column a i)"
  by (simp add: getcol_def column_def)

lemma setcol_putcol: "i < ncols a \<Longrightarrow> setcol a i col = Inr (putcol a i col)"
  by (simp add: setcol_def putcol_def)

lemma length_column [simp]: "length (column a i) = length (cells a)"
  by (simp add: column_def)

lemma putcol_shape [simp]: "nrows (putcol a i col) = nrows a" "ncols (putcol a i col) = ncols a"
  by (simp_all add: putcol_def)

lemma wf_putcol: "wf_array a \<Longrightarrow> length col = nrows a \<Longrightarrow> wf_array (putcol a i col)"
  by (auto simp: wf_array_def putcol_def list_all_iff set_zip)

lemma column_putcol:
  assumes "wf_array a" "length col = nrows a" "i < ncols a"
  shows "column (putcol a i col) j = (if j = i then col else column a j)"
proof -
  have len: "length (cells a) = length col" using assms by (simp add: wf_array_def)
  have rows: "\<And>k. k < length col \<Longrightarrow> length (cells a ! k) = ncols a"
    using assms len by (simp add: wf_array_def list_all_length)
  show ?thesis
    using assms len rows by (auto simp: column_def putcol_def intro!: nth_equalityI)
qed

lemma putcol_putcol:
  assumes "length c1 = length (cells a)" "length c2 = length (cells a)"
  shows "putcol (putcol a i c1) i c2 = putcol a i c2"
proof -
  have "map2 (\<lambda>r v. r[i := v]) (map2 (\<lambda>r v. r[i := v]) (cells a) c1) c2
      = map2 (\<lambda>r v. r[i := v]) (cells a) c2"
    using assms by (intro nth_equalityI) simp_all
  then show ?thesis by (simp add: putcol_def)
qed

lemma cell_column: "r < length (cells a) \<Longrightarrow> cell a r i = column a i ! r"
  by (simp add: cell_def column_def)

text \<open>Reductions of a non-empty column.\<close>

lemma nanmin_colmin: "xs \<noteq> [] \<Longrightarrow> nanmin xs = Inr (colmin xs)"
  by (cases xs) (simp_all add: nanmin_def colmin_def)

lemma nanmax_colmax: "xs \<noteq> [] \<Longrightarrow> nanmax xs = Inr (colmax xs)"
  by (cases xs) (simp_all add: nanmax_def colmax_def)

lemma fit_column_step:
  assumes "wf_array a" "0 < nrows a" "i < ncols a"
  shows "fit_column i (a, mins, maxs) =
    Inr (putcol a i (fit_result (column a i)), mins[i := colmin (column a i)],
         maxs[i := shift_max (column a i)])"
proof -
  have ne: "column a i \<noteq> []" using assms by (auto simp: wf_array_def column_def)
  let ?c1 = "map (\<lambda>v. fsub v (colmin (column a i))) (column a i)"
  have wf1: "wf_array (putcol a i ?c1)" using assms by (intro wf_putcol) (simp_all add: wf_array_def)
  have c1: "column (putcol a i ?c1) i = ?c1"
    using assms by (simp add: column_putcol wf_array_def)
  have ne1: "?c1 \<noteq> []" using ne by simp
  have pp: "putcol (putcol a i ?c1) i (map (\<lambda>v. fdiv v (fadd (colmax ?c1) eps)) ?c1)
      = putcol a i (fit_result (column a i))"
    using assms by (simp add: putcol_putcol fit_result_def shift_max_def comp_def)
  show ?thesis
    using assms ne ne1
    by (simp add: fit_column_def ebind_def getcol_column nanmin_colmin nanmax_colmax
        setcol_putcol c1 pp shift_max_def del: map_is_Nil_conv map_map)
qed


lemma fit_loop:
  assumes "wf_array a" "0 < nrows a" "distinct js" "\<forall>j\<in>set js. j < ncols a"
  shows "\<exists>a' mins' maxs'.
      for_each js fit_column (a, mins, maxs) = Inr (a', mins', maxs')
    \<and> wf_array a' \<and> nrows a' = nrows a \<and> ncols a' = ncols a
    \<and> length mins' = length mins \<and> length maxs' = length maxs
    \<and> (\<forall>j<ncols a. column a' j = (if j \<in> set js then fit_result (column a j) else column a j))
    \<and> (\<forall>j<length mins. mins' ! j = (if j \<in> set js then colmin (column a j) else mins ! j))
    \<and> (\<forall>j<length maxs. maxs' ! j = (if j \<in> set js then shift_max (column a j) else maxs ! j))"
  using assms
proof (induction js arbitrary: a mins maxs)
  case Nil
  then show ?case by simp
next
  case (Cons i js)
  let ?a1 = "putcol a i (fit_result (column a i))"
  let ?m1 = "mins[i := colmin (column a i)]"
  let ?M1 = "maxs[i := shift_max (column a i)]"
  have i: "i < ncols a" and inotin: "i \<notin> set js" using Cons.prems by auto
  have step: "fit_column i (a, mins, maxs) = Inr (?a1, ?m1, ?M1)"
    using Cons.prems i by (simp add: fit_column_step)
  have len: "length (fit_result (column a i)) = nrows a"
    using Cons.prems by (simp add: fit_result_def wf_array_def)
  have wf1: "wf_array ?a1" using Cons.prems len by (intro wf_putcol)
  have cols1: "\<And>j. column ?a1 j = (if j = i then fit_result (column a i) else column a j)"
    using Cons.prems(1) len i by (rule column_putcol)
  obtain a' mins' maxs' where
    run: "for_each js fit_column (?a1, ?m1, ?M1) = Inr (a', mins', maxs')"
    and wf': "wf_array a'" and shape: "nrows a' = nrows a" "ncols a' = ncols a"
    and lens: "length mins' = length mins" "length maxs' = length maxs"
    and cols: "\<forall>j<ncols a. column a' j = (if j \<in> set js then fit_result (column ?a1 j) else column ?a1 j)"
    and mn: "\<forall>j<length mins. mins' ! j = (if j \<in> set js then colmin (column ?a1 j) else ?m1 ! j)"
    and mx: "\<forall>j<length maxs. maxs' ! j = (if j \<in> set js then shift_max (column ?a1 j) else ?M1 ! j)"
    using Cons.IH[of ?a1 ?m1 ?M1] wf1 Cons.prems by auto
  have "for_each (i # js) fit_column (a, mins, maxs) = Inr (a', mins', maxs')"
    using step run by (simp add: ebind_def)
  moreover have "\<forall>j<ncols a. column a' j = (if j \<in> set (i # js) then fit_result (column a j) else column a j)"
    using cols inotin by (auto simp: cols1)
  moreover have "\<forall>j<length mins. mins' ! j = (if j \<in> set (i # js) then colmin (column a j) else mins ! j)"
    using mn inotin by (auto simp: cols1)
  moreover have "\<forall>j<length maxs. maxs' ! j = (if j \<in> set (i # js) then shift_max (column a j) else maxs ! j)"
    using mx inotin by (auto simp: cols1)
  ultimately show ?case using wf' shape lens by blast
qed

lemma normalization_fit:
  assumes "wf_array d" "0 < nrows d"
  shows "\<exists>nd mins maxs.
      normalization d None = Inr (nd, \<lparr>min_val = Vec mins, max_val = Vec maxs\<rparr>)
    \<and> wf_array nd \<and> nrows nd = nrows d \<and> ncols nd = ncols d
    \<and> length mins = ncols d \<and> length maxs = ncols d
    \<and> (\<forall>j<ncols d. column nd j = fit_result (column d j)
          \<and> mins ! j = colmin (column d j) \<and> maxs ! j = shift_max (column d j))"
proof -
  obtain a' mins' maxs' where
    run: "for_each [0..<ncols d] fit_column (d, replicate (ncols d) (Fin 0), replicate (ncols d) (Fin 0))
       = Inr (a', mins', maxs')"
    and rest: "wf_array a'" "nrows a' = nrows d" "ncols a' = ncols d"
      "length mins' = ncols d" "length maxs' = ncols d"
      "\<forall>j<ncols d. column a' j = fit_result (column d j)"
      "\<forall>j<ncols d. mins' ! j = colmin (column d j)"
      "\<forall>j<ncols d. maxs' ! j = shift_max (column d j)"
    using fit_loop[OF assms, of "[0..<ncols d]" "replicate (ncols d) (Fin 0)" "replicate (ncols d) (Fin 0)"]
    by auto
  show ?thesis
    using run rest by (simp add: normalization_def ebind_def)
qed




lemma fmin_cases: "fmin x y = x \<or> fmin x y = y"
  by (simp add: fmin_def)

lemma fmax_cases: "fmax x y = x \<or> fmax x y = y"
  by (simp add: fmax_def)

lemma foldl_fmin_mem: "foldl fmin y ys \<in> set (y # ys)"
proof (induction ys arbitrary: y)
  case Nil
  then show ?case by simp
next
  case (Cons z zs)
  have "foldl fmin (fmin y z) zs \<in> set (fmin y z # zs)" by (rule Cons.IH)
  then show ?case using fmin_cases[of y z] by auto
qed

lemma foldl_fmax_mem: "foldl fmax y ys \<in> set (y # ys)"
proof (induction ys arbitrary: y)
  case Nil
  then show ?case by simp
next
  case (Cons z zs)
  have "foldl fmax (fmax y z) zs \<in> set (fmax y z # zs)" by (rule Cons.IH)
  then show ?case using fmax_cases[of y z] by auto
qed

lemma colmin_mem: "c \<noteq> [] \<Longrightarrow> colmin c \<in> set c"
  using foldl_fmin_mem[of "hd c" "tl c"] by (cases c) (simp_all add: colmin_def)

lemma colmax_mem: "c \<noteq> [] \<Longrightarrow> colmax c \<in> set c"
  using foldl_fmax_mem[of "hd c" "tl c"] by (cases c) (simp_all add: colmax_def)

lemma fle_trans: "fle a b \<Longrightarrow> fle b c \<Longrightarrow> fle a c"
  by (cases a; cases b; cases c) (auto simp: fle_def)

lemma fle_refl: "\<not> isnan a \<Longrightarrow> fle a a"
  by (cases a) (auto simp: fle_def)

lemma fmin_le1: "\<not> isnan x \<Longrightarrow> fle (fmin x y) x"
  by (cases x; cases y) (auto simp: fle_def fmin_def)

lemma fmin_le2: "\<not> isnan y \<Longrightarrow> fle (fmin x y) y"
  by (cases x; cases y) (auto simp: fle_def fmin_def)

lemma fmax_ge1: "\<not> isnan x \<Longrightarrow> fle x (fmax x y)"
  by (cases x; cases y) (auto simp: fle_def fmax_def)

lemma fmax_ge2: "\<not> isnan y \<Longrightarrow> fle y (fmax x y)"
  by (cases x; cases y) (auto simp: fle_def fmax_def)

lemma foldl_fmin_le_acc: "\<not> isnan y \<Longrightarrow> fle (foldl fmin y ys) y"
proof (induction ys arbitrary: y)
  case Nil
  then show ?case by (simp add: fle_refl)
next
  case (Cons z zs)
  have a: "fle (fmin y z) y" using Cons.prems by (rule fmin_le1)
  then have "\<not> isnan (fmin y z)" by (simp add: fle_def)
  then have "fle (foldl fmin (fmin y z) zs) (fmin y z)" by (rule Cons.IH)
  then show ?case using a by (auto intro: fle_trans)
qed

lemma foldl_fmax_ge_acc: "\<not> isnan y \<Longrightarrow> fle y (foldl fmax y ys)"
proof (induction ys arbitrary: y)
  case Nil
  then show ?case by (simp add: fle_refl)
next
  case (Cons z zs)
  have a: "fle y (fmax y z)" using Cons.prems by (rule fmax_ge1)
  then have "\<not> isnan (fmax y z)" by (simp add: fle_def)
  then have "fle (fmax y z) (foldl fmax (fmax y z) zs)" by (rule Cons.IH)
  then show ?case using a by (auto intro: fle_trans)
qed

lemma foldl_fmin_le: "x \<in> set (y # ys) \<Longrightarrow> \<not> isnan x \<Longrightarrow> fle (foldl fmin y ys) x"
proof (induction ys arbitrary: y)
  case Nil
  then show ?case by (simp add: fle_refl)
next
  case (Cons z zs)
  consider "x = y" | "x = z" | "x \<in> set zs" using Cons.prems by auto
  then show ?case
  proof cases
    case 1
    then have a: "fle (fmin y z) x" using Cons.prems by (simp add: fmin_le1)
    then have "\<not> isnan (fmin y z)" by (simp add: fle_def)
    then have "fle (foldl fmin (fmin y z) zs) (fmin y z)" by (rule foldl_fmin_le_acc)
    then show ?thesis using a by (auto intro: fle_trans)
  next
    case 2
    have a: "fle (fmin y z) x" using 2 Cons.prems by (simp add: fmin_le2)
    then have "\<not> isnan (fmin y z)" by (simp add: fle_def)
    then have "fle (foldl fmin (fmin y z) zs) (fmin y z)" by (rule foldl_fmin_le_acc)
    then show ?thesis using a by (auto intro: fle_trans)
  next
    case 3
    then show ?thesis using Cons.IH[of "fmin y z"] Cons.prems by simp
  qed
qed

lemma foldl_fmax_ge: "x \<in> set (y # ys) \<Longrightarrow> \<not> isnan x \<Longrightarrow> fle x (foldl fmax y ys)"
proof (induction ys arbitrary: y)
  case Nil
  then show ?case by (simp add: fle_refl)
next
  case (Cons z zs)
  consider "x = y" | "x = z" | "x \<in> set zs" using Cons.prems by auto
  then show ?case
  proof cases
    case 1
    then have a: "fle x (fmax y z)" using Cons.prems by (simp add: fmax_ge1)
    then have "\<not> isnan (fmax y z)" by (simp add: fle_def)
    then have "fle (fmax y z) (foldl fmax (fmax y z) zs)" by (rule foldl_fmax_ge_acc)
    then show ?thesis using a by (auto intro: fle_trans)
  next
    case 2
    have a: "fle x (fmax y z)" using 2 Cons.prems by (simp add: fmax_ge2)
    then have "\<not> isnan (fmax y z)" by (simp add: fle_def)
    then have "fle (fmax y z) (foldl fmax (fmax y z) zs)" by (rule foldl_fmax_ge_acc)
    then show ?thesis using a by (auto intro: fle_trans)
  next
    case 3
    then show ?thesis using Cons.IH[of "fmax y z"] Cons.prems by simp
  qed
qed

lemma colmin_le: "x \<in> set c \<Longrightarrow> \<not> isnan x \<Longrightarrow> fle (colmin c) x"
  using foldl_fmin_le[of x "hd c" "tl c"] by (cases c) (simp_all add: colmin_def)

lemma colmax_ge: "x \<in> set c \<Longrightarrow> \<not> isnan x \<Longrightarrow> fle x (colmax c)"
  using foldl_fmax_ge[of x "hd c" "tl c"] by (cases c) (simp_all add: colmax_def)

text \<open>Shifting a column by its minimum commutes with taking the maximum.\<close>

lemma fsub_fmax_commute:
  assumes "isnan x \<or> fle m x" "isnan y \<or> fle m y"
  shows "fsub (fmax x y) m = fmax (fsub x m) (fsub y m)"
proof (cases "isfinite x \<and> isfinite y \<and> isfinite m")
  case True
  then obtain a b c where "x = Fin a" "y = Fin b" "m = Fin c"
    by (cases x; cases y; cases m) simp_all
  then show ?thesis
    by (simp add: fsub_def fmax_Fin fmax_ovf) (simp add: max_def)
next
  case False
  then show ?thesis
    using assms overflow_threshold_pos
    by (cases x; cases y; cases m) (auto simp: fle_def fmax_def fsub_def ovf_def split: if_splits)
qed

lemma foldl_fmax_map:
  assumes "\<forall>x\<in>set (y # ys). \<forall>z\<in>set (y # ys). f (fmax x z) = fmax (f x) (f z)"
  shows "foldl fmax (f y) (map f ys) = f (foldl fmax y ys)"
  using assms
proof (induction ys arbitrary: y)
  case Nil
  then show ?case by simp
next
  case (Cons z zs)
  have "fmax y z = y \<or> fmax y z = z" by (rule fmax_cases)
  then have sub: "set (fmax y z # zs) \<subseteq> set (y # z # zs)" by auto
  have "foldl fmax (f (fmax y z)) (map f zs) = f (foldl fmax (fmax y z) zs)"
    by (rule Cons.IH) (use Cons.prems sub in blast)
  moreover have "f (fmax y z) = fmax (f y) (f z)" using Cons.prems by simp
  ultimately show ?case by simp
qed

lemma shift_max_eq:
  assumes "c \<noteq> []"
  shows "shift_max c = fsub (colmax c) (colmin c)"
proof -
  obtain y ys where c: "c = y # ys" using assms by (cases c) auto
  have le: "\<And>x. x \<in> set c \<Longrightarrow> isnan x \<or> fle (colmin c) x"
    using colmin_le by blast
  have "foldl fmax (fsub y (colmin c)) (map (\<lambda>v. fsub v (colmin c)) ys)
      = fsub (foldl fmax y ys) (colmin c)"
    by (rule foldl_fmax_map) (use le c fsub_fmax_commute in auto)
  then show ?thesis by (simp add: shift_max_def colmax_def c)
qed

section \<open>Fit-mode normalization\<close>

lemmas eval_defs = normalization_def fit_column_def apply_column_def ebind_def getcol_def
  setcol_def nanmin_def nanmax_def fmin_def fmax_def fsub_def eps_def inf_of_sign_def

lemma normalization_no_rows:
  assumes "wf_array d" "nrows d = 0" "0 < ncols d"
  shows "normalization d None = Inl ValueError"
proof -
  have "cells d = []" using assms by (simp add: wf_array_def)
  then show ?thesis
    using assms(3)
    by (simp add: normalization_def upt_conv_Cons fit_column_def getcol_def nanmin_def ebind_def)
qed

text \<open>
  Claim C2, as the code has it. For every well-formed float dataset with at least one
  row, fit-mode normalization returns; \<open>min_val[i]\<close> is the \<^verbatim>\<open>nanmin\<close> of column \<open>i\<close>;
  \<open>max_val[i]\<close> is the \<^verbatim>\<open>nanmax\<close> of the column \<^emph>\<open>minus\<close> its \<^verbatim>\<open>nanmin\<close> (the
  largest entry of the shifted column, not of the column); and every entry of column
  \<open>i\<close> becomes \<open>(value - min_val[i]) / (max_val[i] + 1e-6)\<close>. Every dataset with a
  column and no rows raises \<^verbatim>\<open>ValueError\<close>.
\<close>

theorem normalization_fit_parameters:
  assumes "wf_array d"
  shows "(0 < nrows d \<longrightarrow>
      (\<exists>nd mins maxs.
          normalization d None = Inr (nd, \<lparr>min_val = Vec mins, max_val = Vec maxs\<rparr>)
        \<and> wf_array nd \<and> nrows nd = nrows d \<and> ncols nd = ncols d
        \<and> length mins = ncols d \<and> length maxs = ncols d
        \<and> (\<forall>i<ncols d. \<exists>lo hi.
              nanmin (column d i) = Inr lo \<and> nanmax (column d i) = Inr hi
            \<and> mins ! i = lo \<and> maxs ! i = fsub hi lo
            \<and> (\<forall>r<nrows d. cell nd r i
                  = fdiv (fsub (cell d r i) (mins ! i)) (fadd (maxs ! i) eps)))))
    \<and> (nrows d = 0 \<and> 0 < ncols d \<longrightarrow> normalization d None = Inl ValueError)"
proof (intro conjI impI)
  assume pos: "0 < nrows d"
  obtain nd mins maxs where
    run: "normalization d None = Inr (nd, \<lparr>min_val = Vec mins, max_val = Vec maxs\<rparr>)"
    and shape: "wf_array nd" "nrows nd = nrows d" "ncols nd = ncols d"
      "length mins = ncols d" "length maxs = ncols d"
    and cols: "\<forall>j<ncols d. column nd j = fit_result (column d j)
          \<and> mins ! j = colmin (column d j) \<and> maxs ! j = shift_max (column d j)"
    using normalization_fit[OF assms pos] by blast
  have len: "length (cells d) = nrows d" "length (cells nd) = nrows d"
    using assms shape by (simp_all add: wf_array_def)
  have "\<exists>lo hi. nanmin (column d i) = Inr lo \<and> nanmax (column d i) = Inr hi
        \<and> mins ! i = lo \<and> maxs ! i = fsub hi lo
        \<and> (\<forall>r<nrows d. cell nd r i = fdiv (fsub (cell d r i) (mins ! i)) (fadd (maxs ! i) eps))"
    if i: "i < ncols d" for i
  proof -
    have ne: "column d i \<noteq> []" using pos len by (auto simp: column_def)
    have c: "column nd i = fit_result (column d i)" and mn: "mins ! i = colmin (column d i)"
      and mx: "maxs ! i = shift_max (column d i)"
      using cols i by auto
    have "cell nd r i = fdiv (fsub (cell d r i) (mins ! i)) (fadd (maxs ! i) eps)" if "r < nrows d" for r
      using that len by (simp add: cell_column c mn mx fit_result_def)
    then show ?thesis
      using ne mn mx by (simp add: nanmin_colmin nanmax_colmax shift_max_eq)
  qed
  then show "\<exists>nd mins maxs.
          normalization d None = Inr (nd, \<lparr>min_val = Vec mins, max_val = Vec maxs\<rparr>)
        \<and> wf_array nd \<and> nrows nd = nrows d \<and> ncols nd = ncols d
        \<and> length mins = ncols d \<and> length maxs = ncols d
        \<and> (\<forall>i<ncols d. \<exists>lo hi.
              nanmin (column d i) = Inr lo \<and> nanmax (column d i) = Inr hi
            \<and> mins ! i = lo \<and> maxs ! i = fsub hi lo
            \<and> (\<forall>r<nrows d. cell nd r i
                  = fdiv (fsub (cell d r i) (mins ! i)) (fadd (maxs ! i) eps)))"
    using run shape by blast
next
  assume "nrows d = 0 \<and> 0 < ncols d"
  then show "normalization d None = Inl ValueError"
    using assms by (simp add: normalization_no_rows)
qed

theorem normalization_fit_parameters_witness:
  "(\<exists>nd mins maxs.
      normalization \<lparr>nrows = 2, ncols = 1, cells = [[Fin 1], [Fin 3]]\<rparr> None
        = Inr (nd, \<lparr>min_val = Vec mins, max_val = Vec maxs\<rparr>)
    \<and> mins ! 0 = Fin 1 \<and> maxs ! 0 = Fin 2
    \<and> cell nd 1 0 = fdiv (fsub (Fin 3) (Fin 1)) (fadd (Fin 2) eps))
   \<and> normalization \<lparr>nrows = 0, ncols = 3, cells = []\<rparr> None = Inl ValueError"
proof -
  let ?d = "\<lparr>nrows = 2, ncols = 1, cells = [[Fin 1], [Fin 3]]\<rparr> :: ndarray"
  let ?e = "\<lparr>nrows = 0, ncols = 3, cells = []\<rparr> :: ndarray"
  have wf: "wf_array ?d" and wfe: "wf_array ?e" by (simp_all add: wf_array_def)
  from normalization_fit_parameters[OF wf] obtain nd mins maxs where
    run: "normalization ?d None = Inr (nd, \<lparr>min_val = Vec mins, max_val = Vec maxs\<rparr>)"
    and rest: "\<forall>i<ncols ?d. \<exists>lo hi.
          nanmin (column ?d i) = Inr lo \<and> nanmax (column ?d i) = Inr hi
        \<and> mins ! i = lo \<and> maxs ! i = fsub hi lo
        \<and> (\<forall>r<nrows ?d. cell nd r i = fdiv (fsub (cell ?d r i) (mins ! i)) (fadd (maxs ! i) eps))"
    by auto
  from rest obtain lo hi where
    lo: "nanmin (column ?d 0) = Inr lo" and hi: "nanmax (column ?d 0) = Inr hi"
    and mn: "mins ! 0 = lo" and mx: "maxs ! 0 = fsub hi lo"
    and cells: "\<forall>r<nrows ?d. cell nd r 0 = fdiv (fsub (cell ?d r 0) (mins ! 0)) (fadd (maxs ! 0) eps)"
    by auto
  have lo': "lo = Fin 1" using lo by (simp add: column_def nanmin_def fmin_def)
  have hi': "hi = Fin 3" using hi by (simp add: column_def nanmax_def fmax_def)
  have mx': "maxs ! 0 = Fin 2" using mx lo' hi' by (simp add: fsub_def)
  have "cell nd 1 0 = fdiv (fsub (cell ?d 1 0) (mins ! 0)) (fadd (maxs ! 0) eps)"
    using cells by simp
  then have "mins ! 0 = Fin 1 \<and> maxs ! 0 = Fin 2
      \<and> cell nd 1 0 = fdiv (fsub (Fin 3) (Fin 1)) (fadd (Fin 2) eps)"
    using mn lo' mx' by (simp add: cell_def)
  moreover have "normalization ?e None = Inl ValueError"
    using normalization_fit_parameters[OF wfe] by simp
  ultimately show ?thesis using run by blast
qed

text \<open>
  The claim as written fails on the column \<open>[1, 3]\<close>: the returned \<open>max_val\<close> is 2,
  the \<^verbatim>\<open>nanmax\<close> of the column is 3. A dataset of no rows and one column has no
  parameters at all: \<^verbatim>\<open>nanmin\<close> raises.
\<close>

theorem fit_max_val_counterexample:
  "normalization \<lparr>nrows = 2, ncols = 1, cells = [[Fin 1], [Fin 3]]\<rparr> None
     = Inr (\<lparr>nrows = 2, ncols = 1, cells = [[Fin 0], [Fin (2000000 / 2000001)]]\<rparr>,
            \<lparr>min_val = Vec [Fin 1], max_val = Vec [Fin 2]\<rparr>)
   \<and> nanmax [Fin 1, Fin 3] = Inr (Fin 3)
   \<and> normalization \<lparr>nrows = 0, ncols = 1, cells = []\<rparr> None = Inl ValueError"
  by (simp add: eval_defs)

section \<open>The range of fit-mode normalization\<close>

text \<open>
  Claim C9, as the code has it. For every entry of a well-formed float dataset,
  fit-mode normalization returns; a not-a-number entry stays not-a-number; and an entry
  is mapped into \<open>[0, 1]\<close> when the entry minus the \<^verbatim>\<open>nanmin\<close> of its column is a
  finite value: the entry is finite, the column holds no negative infinity, and the
  subtraction does not overflow.
\<close>

theorem fit_range:
  assumes "wf_array d" "r < nrows d" "i < ncols d"
  shows "\<exists>nd ps lo. normalization d None = Inr (nd, ps) \<and> nanmin (column d i) = Inr lo
    \<and> (isnan (cell d r i) \<longrightarrow> isnan (cell nd r i))
    \<and> (isfinite (fsub (cell d r i) lo)
          \<longrightarrow> (\<exists>y. cell nd r i = Fin y \<and> 0 \<le> y \<and> y \<le> 1))"
proof -
  have pos: "0 < nrows d" using assms by simp
  obtain nd mins maxs where
    run: "normalization d None = Inr (nd, \<lparr>min_val = Vec mins, max_val = Vec maxs\<rparr>)"
    and shape: "wf_array nd" "nrows nd = nrows d" "ncols nd = ncols d"
    and cols: "\<forall>j<ncols d. column nd j = fit_result (column d j)
          \<and> mins ! j = colmin (column d j) \<and> maxs ! j = shift_max (column d j)"
    using normalization_fit[OF assms(1) pos] by blast
  have len: "length (cells d) = nrows d" "length (cells nd) = nrows d"
    using assms shape by (simp_all add: wf_array_def)
  let ?c = "column d i"
  let ?s = "map (\<lambda>v. fsub v (colmin ?c)) ?c"
  have ne: "?c \<noteq> []" using assms len by (auto simp: column_def)
  have lo: "nanmin ?c = Inr (colmin ?c)" using ne by (rule nanmin_colmin)
  have mem: "cell d r i \<in> set ?c" using assms len by (auto simp: cell_def column_def)
  have out: "cell nd r i = fdiv (fsub (cell d r i) (colmin ?c)) (fadd (shift_max ?c) eps)"
    using assms len cols by (simp add: cell_column fit_result_def)
  have nan: "isnan (cell nd r i)" if "isnan (cell d r i)"
    using that by (cases "cell d r i") (simp_all add: out fsub_def)
  have fin: "\<exists>y. cell nd r i = Fin y \<and> 0 \<le> y \<and> y \<le> 1"
    if f: "isfinite (fsub (cell d r i) (colmin ?c))"
  proof -
    obtain v b where v: "cell d r i = Fin v" and b: "colmin ?c = Fin b"
      using f by (cases "cell d r i"; cases "colmin ?c") (simp_all add: fsub_def)
    have "fle (colmin ?c) (Fin v)" using mem v by (intro colmin_le) simp_all
    then have bv: "b \<le> v" by (simp add: fle_def b)
    have sh: "fsub (cell d r i) (colmin ?c) = Fin (v - b)"
      using f ovf_finite[of "v - b"] by (simp add: v b fsub_def)
    have "Fin (v - b) \<in> set ?s" using mem sh by force
    then have "fle (Fin (v - b)) (colmax ?s)" by (intro colmax_ge) simp_all
    then have ge: "fle (Fin (v - b)) (shift_max ?c)" by (simp add: shift_max_def)
    have "\<exists>y. fdiv (Fin (v - b)) (fadd (shift_max ?c) eps) = Fin y \<and> 0 \<le> y \<and> y \<le> 1"
    proof (cases "shift_max ?c")
      case (Fin m)
      then have m: "v - b \<le> m" using ge by (simp add: fle_def)
      have e: "fadd (shift_max ?c) eps = ovf (m + 1 / 1000000)" by (simp add: Fin eps_def)
      have "0 \<le> m + 1 / 1000000" using m bv by simp
      then consider "ovf (m + 1 / 1000000) = Fin (m + 1 / 1000000)" | "ovf (m + 1 / 1000000) = PInf"
        using ovf_nonneg by blast
      then show ?thesis
      proof cases
        case 1
        have q: "0 \<le> (v - b) / (m + 1 / 1000000)" "(v - b) / (m + 1 / 1000000) \<le> 1"
          using m bv by (simp_all add: divide_le_eq)
        then have "\<bar>(v - b) / (m + 1 / 1000000)\<bar> \<le> 2 ^ 64"
          by (simp add: abs_if order_trans [OF _ one_le_power])
        then have "ovf ((v - b) / (m + 1 / 1000000)) = Fin ((v - b) / (m + 1 / 1000000))"
          by (rule ovf_small)
        moreover have "m + 1 / 1000000 \<noteq> 0" using m bv by simp
        ultimately show ?thesis using q by (simp add: e 1)
      next
        case 2
        then show ?thesis by (simp add: e)
      qed
    next
      case PInf
      then show ?thesis by (simp add: eps_def)
    qed (use ge in \<open>simp_all add: fle_def\<close>)
    then show ?thesis by (simp add: out sh)
  qed
  show ?thesis using run lo nan fin by blast
qed

theorem fit_range_witness:
  "\<exists>nd ps. normalization \<lparr>nrows = 2, ncols = 1, cells = [[Fin 1], [Fin 3]]\<rparr> None = Inr (nd, ps)
    \<and> (\<exists>y. cell nd 1 0 = Fin y \<and> 0 \<le> y \<and> y \<le> 1)"
proof -
  let ?d = "\<lparr>nrows = 2, ncols = 1, cells = [[Fin 1], [Fin 3]]\<rparr> :: ndarray"
  have h: "wf_array ?d" "1 < nrows ?d" "0 < ncols ?d" by (simp_all add: wf_array_def)
  from fit_range[OF h] obtain nd ps lo where
    run: "normalization ?d None = Inr (nd, ps)" and lo: "nanmin (column ?d 0) = Inr lo"
    and rng: "isfinite (fsub (cell ?d 1 0) lo) \<longrightarrow> (\<exists>y. cell nd 1 0 = Fin y \<and> 0 \<le> y \<and> y \<le> 1)"
    by blast
  have "lo = Fin 1" using lo by (simp add: column_def nanmin_def fmin_def)
  then have "isfinite (fsub (cell ?d 1 0) lo)" by (simp add: cell_def fsub_def)
  then show ?thesis using run rng by blast
qed

text \<open>
  The claim as written fails on entries that are numbers but not finite: in the column
  \<open>[inf, 0]\<close> the entry \<open>inf\<close> becomes not-a-number, and in the column \<open>[-inf, 0]\<close>
  both entries do. It fails on finite entries whose range overflows: in the column
  \<open>[1e308, -1e308]\<close> the first entry minus the minimum is \<open>inf\<close>, and the entry becomes
  not-a-number.
\<close>

theorem fit_range_counterexample:
  "normalization \<lparr>nrows = 2, ncols = 1, cells = [[PInf], [Fin 0]]\<rparr> None
     = Inr (\<lparr>nrows = 2, ncols = 1, cells = [[NaN], [Fin 0]]\<rparr>,
            \<lparr>min_val = Vec [Fin 0], max_val = Vec [PInf]\<rparr>)
   \<and> normalization \<lparr>nrows = 2, ncols = 1, cells = [[NInf], [Fin 0]]\<rparr> None
     = Inr (\<lparr>nrows = 2, ncols = 1, cells = [[NaN], [NaN]]\<rparr>,
            \<lparr>min_val = Vec [NInf], max_val = Vec [PInf]\<rparr>)
   \<and> normalization \<lparr>nrows = 2, ncols = 1, cells = [[Fin (10 ^ 308)], [Fin (- (10 ^ 308))]]\<rparr> None
     = Inr (\<lparr>nrows = 2, ncols = 1, cells = [[NaN], [Fin 0]]\<rparr>,
            \<lparr>min_val = Vec [Fin (- (10 ^ 308))], max_val = Vec [PInf]\<rparr>)"
  by (simp add: eval_defs ovf_def overflow_threshold_def)

section \<open>Apply-mode normalization and rmse_loss on concrete data\<close>

lemma upt_0_2: "[0..<2] = [0, Suc 0]"
  by (simp add: numeral_2_eq_2)

lemma upt_0_3: "[0..<3] = [0, Suc 0, Suc (Suc 0)]"
  by (simp add: numeral_3_eq_3)

lemmas eval_loop = upt_0_2 upt_0_3 numeral_2_eq_2 numeral_3_eq_3

lemma fit_example:
  "normalization \<lparr>nrows = 2, ncols = 2, cells = [[Fin 0, Fin 10], [Fin 1, Fin 20]]\<rparr> None
   = Inr (\<lparr>nrows = 2, ncols = 2,
           cells = [[Fin 0, Fin 0], [Fin (1000000 / 1000001), Fin (10000000 / 10000001)]]\<rparr>,
          \<lparr>min_val = Vec [Fin 0, Fin 10], max_val = Vec [Fin 1, Fin 10]\<rparr>)"
  by (simp add: eval_defs eval_loop)

lemma apply_example:
  "normalization \<lparr>nrows = 2, ncols = 2, cells = [[Fin 0, Fin 10], [Fin 1, Fin 20]]\<rparr>
     (Some \<lparr>min_val = Vec [Fin 0, Fin 10], max_val = Vec [Fin 1, Fin 10]\<rparr>)
   = Inr (\<lparr>nrows = 2, ncols = 2,
           cells = [[Fin 0, Fin (10000000 / 1000001)],
                    [Fin (- (9000000 / 10000001)), Fin (10000000 / 10000001)]]\<rparr>,
          \<lparr>min_val = Vec [Fin 0, Fin 10], max_val = Vec [Fin 1, Fin 10]\<rparr>)"
  by (simp add: eval_defs eval_loop)

lemma fit_example3:
  "normalization \<lparr>nrows = 3, ncols = 2, cells = [[Fin 0, Fin 10], [Fin 1, Fin 20], [Fin 2, Fin 30]]\<rparr> None
   = Inr (\<lparr>nrows = 3, ncols = 2,
           cells = [[Fin 0, Fin 0], [Fin (1000000 / 2000001), Fin (10000000 / 20000001)],
                    [Fin (2000000 / 2000001), Fin (20000000 / 20000001)]]\<rparr>,
          \<lparr>min_val = Vec [Fin 0, Fin 10], max_val = Vec [Fin 2, Fin 20]\<rparr>)"
  by (simp add: eval_defs eval_loop)

lemma apply_example3:
  "normalization \<lparr>nrows = 3, ncols = 2, cells = [[Fin 0, Fin 10], [Fin 1, Fin 20], [Fin 2, Fin 30]]\<rparr>
     (Some \<lparr>min_val = Vec [Fin 0, Fin 10], max_val = Vec [Fin 2, Fin 20]\<rparr>)
   = Inl ValueError"
  by (simp add: eval_defs eval_loop)

text \<open>
  Claim C1 at a failing input. With the per-column parameters that fit mode returns for
  it, the 2 by 2 dataset \<open>[[0, 10], [1, 20]]\<close> is transformed row by row: the entry 1 of
  column 0 becomes \<open>(1 - min_val[1]) / (max_val[1] + 1e-6)\<close>, a negative number, where
  the claim has \<open>(1 - min_val[0]) / (max_val[0] + 1e-6)\<close>; and the entry 10 of column 1
  becomes \<open>(10 - min_val[0]) / (max_val[0] + 1e-6)\<close> where the claim has 0. A 3 by 2
  dataset with per-column parameters raises \<^verbatim>\<open>ValueError\<close>.
\<close>

theorem apply_mode_whole_parameter:
  "normalization \<lparr>nrows = 2, ncols = 2, cells = [[Fin 0, Fin 10], [Fin 1, Fin 20]]\<rparr>
     (Some \<lparr>min_val = Vec [Fin 0, Fin 10], max_val = Vec [Fin 1, Fin 10]\<rparr>)
   = Inr (\<lparr>nrows = 2, ncols = 2,
           cells = [[Fin 0, Fin (10000000 / 1000001)],
                    [Fin (- (9000000 / 10000001)), Fin (10000000 / 10000001)]]\<rparr>,
          \<lparr>min_val = Vec [Fin 0, Fin 10], max_val = Vec [Fin 1, Fin 10]\<rparr>)
   \<and> fdiv (fsub (Fin 1) (Fin 0)) (fadd (Fin 1) eps) = Fin (1000000 / 1000001)
   \<and> fdiv (fsub (Fin 10) (Fin 10)) (fadd (Fin 10) eps) = Fin 0
   \<and> normalization \<lparr>nrows = 3, ncols = 2, cells = [[Fin 0, Fin 10], [Fin 1, Fin 20], [Fin 2, Fin 30]]\<rparr>
     (Some \<lparr>min_val = Vec [Fin 0, Fin 10], max_val = Vec [Fin 2, Fin 20]\<rparr>)
   = Inl ValueError"
  by (simp add: apply_example apply_example3) (simp add: fsub_def eps_def)

text \<open>
  Claim C4 at a failing input. With \<open>ori_data\<close> equal to \<open>imputed_data\<close> and a mask
  that has zero entries, the 2 by 2 dataset \<open>[[0, 10], [1, 20]]\<close> has a loss above 1,
  and the 3 by 2 dataset raises \<^verbatim>\<open>ValueError\<close>: both come from the apply-mode
  normalization of \<open>imputed_data\<close>, which uses the whole parameter vectors.
\<close>

theorem rmse_loss_same_data:
  "rmse_loss \<lparr>nrows = 2, ncols = 2, cells = [[Fin 0, Fin 10], [Fin 1, Fin 20]]\<rparr>
             \<lparr>nrows = 2, ncols = 2, cells = [[Fin 0, Fin 10], [Fin 1, Fin 20]]\<rparr>
             \<lparr>nrows = 2, ncols = 2, cells = [[Fin 1, Fin 1], [Fin 0, Fin 0]]\<rparr>
   = Inr (Fin (sqrt ((1000000 / 1000001 + 9000000 / 10000001)\<^sup>2 / 2)))
   \<and> 1 < sqrt ((1000000 / 1000001 + 9000000 / 10000001)\<^sup>2 / 2)
   \<and> rmse_loss \<lparr>nrows = 3, ncols = 2, cells = [[Fin 0, Fin 10], [Fin 1, Fin 20], [Fin 2, Fin 30]]\<rparr>
             \<lparr>nrows = 3, ncols = 2, cells = [[Fin 0, Fin 10], [Fin 1, Fin 20], [Fin 2, Fin 30]]\<rparr>
             \<lparr>nrows = 3, ncols = 2, cells = [[Fin 1, Fin 1], [Fin 0, Fin 0], [Fin 1, Fin 1]]\<rparr>
   = Inl ValueError"
  apply (simp add: rmse_loss_def fit_example apply_example fit_example3 apply_example3 ebind_def)
  apply (simp add: broadcast2_def bdim_def stretch_def amap_def asum_def fsub_def  power2_eq_square)
  done

section \<open>Properties of rounding\<close>

lemma categorical_code:
  "categorical dx i = (length (remdups (filter (\<lambda>v. \<not> isnan v) (column dx i))) < 20)"
proof -
  have "{v \<in> set (column dx i). \<not> isnan v} = set (filter (\<lambda>v. \<not> isnan v) (column dx i))"
    by auto
  then show ?thesis by (simp add: categorical_def length_remdups_card_conv)
qed

lemma round_column_step:
  assumes "wf_array a" "i < ncols a" "i < ncols dx"
  shows "round_column dx i a
    = Inr (if categorical dx i then putcol a i (map fround (column a i)) else a)"
  using assms
  by (simp add: round_column_def ebind_def getcol_column setcol_putcol categorical_code Let_def)

lemma round_loop:
  assumes "wf_array a" "distinct js" "\<forall>j\<in>set js. j < ncols a \<and> j < ncols dx"
  shows "\<exists>a'. for_each js (round_column dx) a = Inr a'
    \<and> wf_array a' \<and> nrows a' = nrows a \<and> ncols a' = ncols a
    \<and> (\<forall>j<ncols a. column a' j =
          (if j \<in> set js \<and> categorical dx j then map fround (column a j) else column a j))"
  using assms
proof (induction js arbitrary: a)
  case Nil
  then show ?case by simp
next
  case (Cons i js)
  define a1 where "a1 = (if categorical dx i then putcol a i (map fround (column a i)) else a)"
  have i: "i < ncols a" "i < ncols dx" and inotin: "i \<notin> set js"
    using Cons.prems by auto
  have step: "round_column dx i a = Inr a1"
    unfolding a1_def using Cons.prems(1) i by (rule round_column_step)
  have len: "length (map fround (column a i)) = nrows a"
    using Cons.prems by (simp add: wf_array_def)
  have wf1: "wf_array a1" using Cons.prems(1) len by (simp add: a1_def wf_putcol)
  have shape1: "nrows a1 = nrows a" "ncols a1 = ncols a" by (simp_all add: a1_def)
  have cols1: "\<And>j. column a1 j
      = (if j = i \<and> categorical dx i then map fround (column a i) else column a j)"
    using column_putcol[OF Cons.prems(1) len i(1)] by (simp add: a1_def)
  obtain a' where
    run: "for_each js (round_column dx) a1 = Inr a'"
    and wf': "wf_array a'" and shape: "nrows a' = nrows a" "ncols a' = ncols a"
    and cols: "\<forall>j<ncols a. column a' j =
          (if j \<in> set js \<and> categorical dx j then map fround (column a1 j) else column a1 j)"
    using Cons.IH[of a1] wf1 shape1 Cons.prems(2,3) by auto
  have "for_each (i # js) (round_column dx) a = Inr a'"
    using step run by (simp add: ebind_def)
  moreover have "\<forall>j<ncols a. column a' j =
      (if j \<in> set (i # js) \<and> categorical dx j then map fround (column a j) else column a j)"
    using cols inotin by (auto simp: cols1)
  ultimately show ?case using wf' shape by blast
qed

lemma rounding_cells:
  assumes "wf_array imp" "ncols dx \<le> ncols imp"
  shows "\<exists>out. rounding imp dx = Inr out
    \<and> wf_array out \<and> nrows out = nrows imp \<and> ncols out = ncols imp
    \<and> (\<forall>i<ncols dx. \<forall>r<nrows imp.
          cell out r i = (if categorical dx i then fround (cell imp r i) else cell imp r i))"
proof -
  obtain out where run: "for_each [0..<ncols dx] (round_column dx) imp = Inr out"
    and shape: "wf_array out" "nrows out = nrows imp" "ncols out = ncols imp"
    and cols: "\<forall>j<ncols imp. column out j =
          (if j \<in> set [0..<ncols dx] \<and> categorical dx j then map fround (column imp j) else column imp j)"
    using round_loop[of imp "[0..<ncols dx]" dx] assms by auto
  have len: "length (cells imp) = nrows imp" "length (cells out) = nrows imp"
    using assms shape by (simp_all add: wf_array_def)
  have "cell out r i = (if categorical dx i then fround (cell imp r i) else cell imp r i)"
    if "i < ncols dx" "r < nrows imp" for i r
    using that cols assms(2) len by (simp add: cell_column)
  then show ?thesis using run shape by (simp add: rounding_def)
qed

lemma rint_nearest: "\<bar>x - of_int (rint x)\<bar> \<le> \<bar>x - of_int j\<bar>"
proof -
  have half: "\<bar>x - of_int (rint x)\<bar> \<le> 1 / 2"
    unfolding rint_def Let_def by (auto simp: abs_if) linarith+
  show ?thesis
  proof (cases "j = rint x")
    case True
    then show ?thesis by simp
  next
    case False
    then have "1 \<le> \<bar>rint x - j\<bar>" by linarith
    then have "(1::real) \<le> \<bar>of_int (rint x) - of_int j\<bar>"
      by (metis of_int_1 of_int_abs of_int_diff of_int_le_iff)
    then show ?thesis using half by linarith
  qed
qed

lemma rint_examples: "rint (1 / 5) = 0" "rint (17 / 10) = 2" "rint (12 / 5) = 2" "rint (5 / 2) = 2"
  by (simp_all add: rint_def Let_def)

lemmas eval_round = rounding_def round_column_def ebind_def getcol_def setcol_def rint_examples

text \<open>
  Claim C7. For every pair of well-formed arrays of the same width, \<^verbatim>\<open>rounding\<close>
  returns an array of the shape of \<open>imputed_data\<close> in which every entry of column \<open>i\<close>
  is rounded when the entries of column \<open>i\<close> of \<open>data_x\<close> that are not not-a-number take
  fewer than 20 distinct values, and is unchanged otherwise. Rounding a finite value
  gives an integer nearest to it (\<^verbatim>\<open>np.round\<close>; not-a-number and the infinities have
  no nearest integer and stay). With observed values 0, 1, 2 the column
  \<open>[0.2, 1.7, 2.4]\<close> becomes \<open>[0, 2, 2]\<close>.
\<close>

theorem rounding_categorical:
  assumes "wf_array imputed_data" "wf_array data_x" "ncols imputed_data = ncols data_x"
  shows "(\<exists>out. rounding imputed_data data_x = Inr out
          \<and> nrows out = nrows imputed_data \<and> ncols out = ncols imputed_data
          \<and> (\<forall>i<ncols data_x. \<forall>r<nrows imputed_data.
                cell out r i =
                  (if card {v \<in> set (column data_x i). \<not> isnan v} < 20
                   then fround (cell imputed_data r i) else cell imputed_data r i)))
       \<and> (\<forall>x j. \<exists>k. fround (Fin x) = Fin (of_int k) \<and> \<bar>x - of_int k\<bar> \<le> \<bar>x - of_int j\<bar>)
       \<and> rounding \<lparr>nrows = 3, ncols = 1, cells = [[Fin (1 / 5)], [Fin (17 / 10)], [Fin (12 / 5)]]\<rparr>
                   \<lparr>nrows = 3, ncols = 1, cells = [[Fin 0], [Fin 1], [Fin 2]]\<rparr>
           = Inr \<lparr>nrows = 3, ncols = 1, cells = [[Fin 0], [Fin 2], [Fin 2]]\<rparr>"
proof (intro conjI)
  show "\<exists>out. rounding imputed_data data_x = Inr out
          \<and> nrows out = nrows imputed_data \<and> ncols out = ncols imputed_data
          \<and> (\<forall>i<ncols data_x. \<forall>r<nrows imputed_data.
                cell out r i =
                  (if card {v \<in> set (column data_x i). \<not> isnan v} < 20
                   then fround (cell imputed_data r i) else cell imputed_data r i))"
    using rounding_cells[of imputed_data data_x] assms by (auto simp: categorical_def)
  show "\<forall>x j. \<exists>k. fround (Fin x) = Fin (of_int k) \<and> \<bar>x - of_int k\<bar> \<le> \<bar>x - of_int j\<bar>"
    using rint_nearest by auto
  show "rounding \<lparr>nrows = 3, ncols = 1, cells = [[Fin (1 / 5)], [Fin (17 / 10)], [Fin (12 / 5)]]\<rparr>
                   \<lparr>nrows = 3, ncols = 1, cells = [[Fin 0], [Fin 1], [Fin 2]]\<rparr>
           = Inr \<lparr>nrows = 3, ncols = 1, cells = [[Fin 0], [Fin 2], [Fin 2]]\<rparr>"
    by (simp add: eval_round)
qed

theorem rounding_categorical_witness:
  "\<exists>out. rounding \<lparr>nrows = 2, ncols = 1, cells = [[Fin (17 / 10)], [Fin (5 / 2)]]\<rparr>
                   \<lparr>nrows = 3, ncols = 1, cells = [[Fin 0], [NaN], [Fin 1]]\<rparr> = Inr out
     \<and> cell out 0 0 = Fin 2 \<and> cell out 1 0 = Fin 2"
proof -
  let ?imp = "\<lparr>nrows = 2, ncols = 1, cells = [[Fin (17 / 10)], [Fin (5 / 2)]]\<rparr> :: ndarray"
  let ?dx = "\<lparr>nrows = 3, ncols = 1, cells = [[Fin 0], [NaN], [Fin 1]]\<rparr> :: ndarray"
  have h: "wf_array ?imp" "wf_array ?dx" "ncols ?imp = ncols ?dx" by (simp_all add: wf_array_def)
  have obs: "{v \<in> set (column ?dx 0). \<not> isnan v} = {Fin 0, Fin 1}"
    by (auto simp: column_def)
  have "card {Fin 0, Fin 1} \<le> 2" by (simp add: card_insert_if)
  then have few: "card {v \<in> set (column ?dx 0). \<not> isnan v} < 20" unfolding obs by simp
  from rounding_categorical[OF h] obtain out where
    run: "rounding ?imp ?dx = Inr out"
    and cells: "\<forall>i<ncols ?dx. \<forall>r<nrows ?imp. cell out r i =
       (if card {v \<in> set (column ?dx i). \<not> isnan v} < 20
        then fround (cell ?imp r i) else cell ?imp r i)"
    by blast
  have "cell out 0 0 = fround (cell ?imp 0 0)" "cell out 1 0 = fround (cell ?imp 1 0)"
    using cells few by simp_all
  then have "cell out 0 0 = Fin 2 \<and> cell out 1 0 = Fin 2"
    by (simp add: cell_def rint_examples)
  then show ?thesis using run by blast
qed

text \<open>
  Claim C10. When column \<open>i\<close> of \<open>data_x\<close> holds not-a-number entries only, it has no
  observed value, and every entry of column \<open>i\<close> of \<open>imputed_data\<close> is rounded: a finite
  entry becomes an integer nearest to it, and an entry that is not finite (it has no
  nearest integer) stays as it is, as \<^verbatim>\<open>np.round\<close> leaves it.
\<close>

theorem rounding_all_missing_column:
  assumes "wf_array imputed_data" "wf_array data_x" "ncols imputed_data = ncols data_x"
    and "i < ncols data_x" "\<forall>v\<in>set (column data_x i). isnan v" "r < nrows imputed_data"
  shows "card {v \<in> set (column data_x i). \<not> isnan v} = 0
    \<and> (\<exists>out. rounding imputed_data data_x = Inr out
          \<and> cell out r i = fround (cell imputed_data r i)
          \<and> (\<forall>x. cell imputed_data r i = Fin x \<longrightarrow>
                (\<exists>k. cell out r i = Fin (of_int k)
                     \<and> (\<forall>j. \<bar>x - of_int k\<bar> \<le> \<bar>x - of_int j\<bar>)))
          \<and> (\<not> isfinite (cell imputed_data r i) \<longrightarrow> cell out r i = cell imputed_data r i))"
proof -
  have none: "{v \<in> set (column data_x i). \<not> isnan v} = {}" using assms(5) by auto
  have "categorical data_x i" unfolding categorical_def none by simp
  then obtain out where run: "rounding imputed_data data_x = Inr out"
    and c: "cell out r i = fround (cell imputed_data r i)"
    using rounding_cells[of imputed_data data_x] assms by auto
  have "\<exists>k. cell out r i = Fin (of_int k) \<and> (\<forall>j. \<bar>x - of_int k\<bar> \<le> \<bar>x - of_int j\<bar>)"
    if "cell imputed_data r i = Fin x" for x
    using that c rint_nearest[of x] by auto
  moreover have "cell out r i = cell imputed_data r i" if "\<not> isfinite (cell imputed_data r i)"
    using that c by (cases "cell imputed_data r i") simp_all
  ultimately show ?thesis using none run c by auto
qed

theorem rounding_all_missing_column_witness:
  "\<exists>out. rounding \<lparr>nrows = 3, ncols = 1, cells = [[Fin (17 / 10)], [Fin (1 / 5)], [NaN]]\<rparr>
                   \<lparr>nrows = 2, ncols = 1, cells = [[NaN], [NaN]]\<rparr> = Inr out
     \<and> cell out 0 0 = Fin 2 \<and> cell out 1 0 = Fin 0 \<and> cell out 2 0 = NaN"
proof -
  let ?imp = "\<lparr>nrows = 3, ncols = 1, cells = [[Fin (17 / 10)], [Fin (1 / 5)], [NaN]]\<rparr> :: ndarray"
  let ?dx = "\<lparr>nrows = 2, ncols = 1, cells = [[NaN], [NaN]]\<rparr> :: ndarray"
  have h: "wf_array ?imp" "wf_array ?dx" "ncols ?imp = ncols ?dx" "0 < ncols ?dx"
    "\<forall>v\<in>set (column ?dx 0). isnan v"
    by (simp_all add: wf_array_def column_def)
  have r: "0 < nrows ?imp" "1 < nrows ?imp" "2 < nrows ?imp" by simp_all
  obtain out where run: "rounding ?imp ?dx = Inr out"
    and c0: "cell out 0 0 = fround (cell ?imp 0 0)"
    using rounding_all_missing_column[OF h r(1)] by blast
  have c1: "cell out 1 0 = fround (cell ?imp 1 0)"
    using rounding_all_missing_column[OF h r(2)] run by auto
  have c2: "cell out 2 0 = cell ?imp 2 0"
    using rounding_all_missing_column[OF h r(3)] run by (auto simp: cell_def)
  have "cell out 0 0 = Fin 2 \<and> cell out 1 0 = Fin 0 \<and> cell out 2 0 = NaN"
    using c0 c1 c2 by (simp add: cell_def rint_examples)
  then show ?thesis using run by blast
qed

section \<open>Properties of the samplers\<close>

text \<open>
  Claim C6. Each sampler installs the state of seed 7 before it draws, so its result
  (and the state it leaves) is the same from any two states of the process-wide
  generator, whatever was drawn before.
\<close>

theorem samplers_reseed:
  "binary_sampler G p rows cols g = binary_sampler G p rows cols g'
   \<and> uniform_sampler G low high rows cols g = uniform_sampler G low high rows cols g'
   \<and> sample_batch_index G n batch_size g = sample_batch_index G n batch_size g'"
  by (simp add: binary_sampler_def uniform_sampler_def sample_batch_index_def)

lemma slice_to_all: "n < k \<Longrightarrow> length xs = nat n \<Longrightarrow> slice_to xs k = xs"
  by (auto simp: slice_to_def)

text \<open>
  Claim C5, as the code has it. \<^verbatim>\<open>sample_batch_index\<close> raises exactly when
  \<^verbatim>\<open>np.random.permutation(total)\<close> does, whatever \<open>batch_size\<close> is; with
  \<open>batch_size > total\<close> and a permutation of \<open>total\<close> indices it returns the whole
  permutation: \<open>total\<close> indices, not \<open>batch_size\<close>.
\<close>

theorem sample_batch_index_oversized:
  "(\<forall>e. sample_batch_index G n batch_size g = Inl e
        \<longleftrightarrow> permutation_gen G (seed_gen G 7) n = Inl e)
   \<and> (\<forall>idx g2. n < batch_size \<and> permutation_gen G (seed_gen G 7) n = Inr (idx, g2)
          \<and> length idx = nat n
        \<longrightarrow> sample_batch_index G n batch_size g = Inr (idx, g2))"
  by (auto simp: sample_batch_index_def ebind_def slice_to_all split: sum.splits)

lemmas eval_demo = demo_gen_def binary_sampler_def uniform_sampler_def sample_batch_index_def
  ebind_def slice_to_def amap_def

theorem sample_batch_index_oversized_witness:
  "sample_batch_index demo_gen 2 4 5 = Inr ([1, 0], 8)"
proof -
  have p: "permutation_gen demo_gen (seed_gen demo_gen 7) 2 = Inr ([1, 0], 8)"
    by (simp add: demo_gen_def upt_0_2)
  have "(2::int) < 4 \<and> permutation_gen demo_gen (seed_gen demo_gen 7) 2 = Inr ([1, 0], 8)
      \<and> length [1, 0 :: int] = nat 2"
    using p by simp
  then show ?thesis
    using sample_batch_index_oversized[of demo_gen 2 4 5] by blast
qed

text \<open>
  The claim as written fails at \<open>total = 3\<close>, \<open>batch_size = 5\<close>: the call returns three
  indices.
\<close>

theorem sample_batch_index_counterexample:
  "sample_batch_index demo_gen 3 5 0 = Inr ([2, 1, 0], 8)"
  by (simp add: eval_demo upt_0_3)

section \<open>Properties of get_data\<close>

lemma mask_assign_cells:
  assumes "wf_array a" "wf_array m" "nrows m = nrows a" "ncols m = ncols a"
  shows "\<exists>b. mask_assign a m v = Inr b \<and> nrows b = nrows a \<and> ncols b = ncols a
    \<and> itemsize b = itemsize a \<and> wf_array b
    \<and> (\<forall>r<nrows a. \<forall>c<ncols a.
          cell b r c = (if cell m r c = 0 then store_str a v else cell a r c))"
proof -
  let ?b = "a\<lparr>cells := map2 (\<lambda>row mrow. map2 (\<lambda>x k. if k = 0 then store_str a v else x) row mrow)
                              (cells a) (cells m)\<rparr>"
  have run: "mask_assign a m v = Inr ?b" using assms by (simp add: mask_assign_def)
  have len: "length (cells a) = nrows a" "length (cells m) = nrows a"
    using assms by (simp_all add: wf_array_def)
  have rows: "\<And>r. r < nrows a \<Longrightarrow> length (cells a ! r) = ncols a \<and> length (cells m ! r) = ncols a"
    using assms len by (simp add: wf_array_def list_all_length)
  have wfb: "wf_array ?b"
    using len rows by (auto simp: wf_array_def list_all_length)
  have "cell ?b r c = (if cell m r c = 0 then store_str a v else cell a r c)"
    if "r < nrows a" "c < ncols a" for r c
    using that len rows by (simp add: cell_def)
  then show ?thesis using run wfb by auto
qed

text \<open>
  Claim C8, as the code has it. For a live array \<open>X\<close> of strings and a mask of its
  shape, \<^verbatim>\<open>get_data\<close> returns \<open>X\<close> itself and a new array \<open>Y\<close>; no array that was
  live before the call is changed, \<open>X\<close> in particular; and a cell of \<open>Y\<close> holds the
  sentinel as \<open>X\<close>'s dtype stores it where the mask is 0, and the cell of \<open>X\<close> where
  it is not.
\<close>

theorem get_data_frame:
  assumes "X < next_free w" "wf_array (arrays w X)"
    and "binary_sampler G (fsub (Fin 1) miss_rate) (int (nrows (arrays w X)))
           (int (ncols (arrays w X))) (rng w) = Inr (data_m, g2)"
    and "wf_array data_m" "nrows data_m = nrows (arrays w X)" "ncols data_m = ncols (arrays w X)"
  shows "\<exists>Y w'. get_data G X miss_rate w = Inr ((X, Y), w')
    \<and> Y \<noteq> X \<and> arrays w' X = arrays w X \<and> (\<forall>a<next_free w. arrays w' a = arrays w a)
    \<and> nrows (arrays w' Y) = nrows (arrays w X) \<and> ncols (arrays w' Y) = ncols (arrays w X)
    \<and> (\<forall>r<nrows (arrays w X). \<forall>c<ncols (arrays w X).
          cell (arrays w' Y) r c =
            (if cell data_m r c = 0 then store_str (arrays w X) sentinel
             else cell (arrays w X) r c))"
proof -
  let ?x = "arrays w X"
  obtain b where b: "mask_assign ?x data_m sentinel = Inr b"
    and shape: "nrows b = nrows ?x" "ncols b = ncols ?x"
    and cells: "\<forall>r<nrows ?x. \<forall>c<ncols ?x.
          cell b r c = (if cell data_m r c = 0 then store_str ?x sentinel else cell ?x r c)"
    using mask_assign_cells[OF assms(2,4,5,6), of sentinel] by blast
  let ?w' = "w\<lparr>rng := g2, arrays := (arrays w)(next_free w := b), next_free := Suc (next_free w)\<rparr>"
  have run: "get_data G X miss_rate w = Inr ((X, next_free w), ?w')"
    using assms(3) b by (simp add: get_data_def ebind_def array_copy_def Let_def)
  have "next_free w \<noteq> X" using assms(1) by simp
  moreover have "\<forall>a<next_free w. arrays ?w' a = arrays w a" by simp
  moreover have "arrays ?w' (next_free w) = b" by simp
  moreover have "arrays ?w' X = arrays w X" using assms(1) by simp
  ultimately show ?thesis using run shape cells by (metis (no_types, lifting))
qed

lemmas eval_get_data = get_data_def array_copy_def mask_assign_def store_str_def sentinel_def
  Let_def fsub_def

theorem get_data_frame_witness:
  "\<exists>Y w'. get_data demo_gen 0 (Fin (1 / 2))
       \<lparr>arrays = (\<lambda>_. \<lparr>nrows = 2, ncols = 2,
                          cells = [[''0|1'', ''1|1''], [''1|0'', ''0|0'']], itemsize = Some 3\<rparr>),
        next_free = 1, rng = 0\<rparr> = Inr ((0, Y), w')
     \<and> Y \<noteq> 0
     \<and> arrays w' 0 = \<lparr>nrows = 2, ncols = 2,
                          cells = [[''0|1'', ''1|1''], [''1|0'', ''0|0'']], itemsize = Some 3\<rparr>
     \<and> cell (arrays w' Y) 0 0 = ''.|.'' \<and> cell (arrays w' Y) 0 1 = ''1|1''
     \<and> cell (arrays w' Y) 1 0 = ''1|0'' \<and> cell (arrays w' Y) 1 1 = ''.|.''"
proof -
  let ?x = "\<lparr>nrows = 2, ncols = 2,
             cells = [[''0|1'', ''1|1''], [''1|0'', ''0|0'']], itemsize = Some 3\<rparr>"
  let ?w = "\<lparr>arrays = (\<lambda>_. ?x), next_free = 1, rng = 0 :: nat\<rparr>"
  let ?m = "\<lparr>nrows = 2, ncols = 2, cells = [[0, 1], [1, 0 :: int]]\<rparr>"
  have live: "0 < next_free ?w" and wfx: "wf_array (arrays ?w 0)" by (simp_all add: wf_array_def)
  have mask: "binary_sampler demo_gen (fsub (Fin 1) (Fin (1 / 2))) (int (nrows (arrays ?w 0)))
           (int (ncols (arrays ?w 0))) (rng ?w) = Inr (?m, 11)"
    by (simp add: eval_demo fsub_def upt_0_2)
  have wfm: "wf_array ?m" "nrows ?m = nrows (arrays ?w 0)" "ncols ?m = ncols (arrays ?w 0)"
    by (simp_all add: wf_array_def)
  from get_data_frame[OF live wfx mask wfm] obtain Y w' where
    run: "get_data demo_gen 0 (Fin (1 / 2)) ?w = Inr ((0, Y), w')"
    and fresh: "Y \<noteq> 0" and same: "arrays w' 0 = arrays ?w 0"
    and cells: "\<forall>r<nrows (arrays ?w 0). \<forall>c<ncols (arrays ?w 0).
          cell (arrays w' Y) r c =
            (if cell ?m r c = 0 then store_str (arrays ?w 0) sentinel else cell (arrays ?w 0) r c)"
    by blast
  have "cell (arrays w' Y) 0 0 = ''.|.''" "cell (arrays w' Y) 0 1 = ''1|1''"
    "cell (arrays w' Y) 1 0 = ''1|0''" "cell (arrays w' Y) 1 1 = ''.|.''"
    using cells by (simp_all add: cell_def store_str_def sentinel_def)
  then show ?thesis using run fresh same by auto
qed

text \<open>
  The claim as written fails where \<open>X\<close> already holds the sentinel at a cell whose mask
  is 0: the copy does not differ from \<open>X\<close> there. And in a unicode array of item width
  1 the masked cell holds \<^verbatim>\<open>"."\<close>, not the sentinel.
\<close>

theorem get_data_counterexample:
  "binary_sampler demo_gen (fsub (Fin 1) (Fin 1)) 1 1 0
     = Inr (\<lparr>nrows = 1, ncols = 1, cells = [[0]]\<rparr>, 8)
   \<and> get_data demo_gen 0 (Fin 1)
       \<lparr>arrays = (\<lambda>_. \<lparr>nrows = 1, ncols = 1, cells = [[''.|.'']], itemsize = None\<rparr>),
        next_free = 1, rng = 0\<rparr>
     = Inr ((0, 1),
       \<lparr>arrays = (\<lambda>_. \<lparr>nrows = 1, ncols = 1, cells = [[''.|.'']], itemsize = None\<rparr>)
                   (1 := \<lparr>nrows = 1, ncols = 1, cells = [[''.|.'']], itemsize = None\<rparr>),
        next_free = 2, rng = 8\<rparr>)
   \<and> get_data demo_gen 0 (Fin 1)
       \<lparr>arrays = (\<lambda>_. \<lparr>nrows = 1, ncols = 1, cells = [[''0'']], itemsize = Some 1\<rparr>),
        next_free = 1, rng = 0\<rparr>
     = Inr ((0, 1),
       \<lparr>arrays = (\<lambda>_. \<lparr>nrows = 1, ncols = 1, cells = [[''0'']], itemsize = Some 1\<rparr>)
                   (1 := \<lparr>nrows = 1, ncols = 1, cells = [[''.'']], itemsize = Some 1\<rparr>),
        next_free = 2, rng = 8\<rparr>)"
  by (simp add: eval_demo eval_get_data)

end
